theory Spec2Isabelle
  imports Main "HOL-Library.AList" "HOL-Library.Char_ord" "HOL-Library.List_Lexorder"
begin

section \<open>JavaScript values\<close>

text \<open>
  The provider of \<^verbatim>\<open>src/thecore.js\<close> works on the values the admin framework
  hands to it (the \<^verbatim>\<open>params\<close> objects) and on the JSON the server returns. They are
  modelled by one datatype of JavaScript values. An object is the list of its own
  enumerable properties in the order \<^verbatim>\<open>Object.entries\<close> yields them. A number is a
  safe integer (magnitude below \<open>2 ^ 53\<close>) or \<^verbatim>\<open>NaN\<close>; fractions and infinities do not
  occur in the identifiers, page numbers and counts the provider handles. A string is a
  list of characters; on the ASCII range every function below agrees with its
  JavaScript original.
\<close>

datatype jsval =
    JUndefined
  | JNull
  | JBool bool
  | JNum int
  | JNaN
  | JStr string
  | JArr "jsval list"
  | JObj "(string \<times> jsval) list"

type_synonym props = "(string \<times> jsval) list"

text \<open>What an operation can fail with: an exception of the language raised by the
  provider's own code, or the rejection the transport produced.\<close>

datatype 'e failure = TypeError | Rejected 'e

subsection \<open>Number to string\<close>

definition digit_char :: "nat \<Rightarrow> char" where
  "digit_char d = char_of (48 + d)"

fun show_nat :: "nat \<Rightarrow> string" where
  "show_nat n = (if n < 10 then [digit_char n] else show_nat (n div 10) @ [digit_char (n mod 10)])"

declare show_nat.simps [simp del]

definition show_int :: "int \<Rightarrow> string" where
  "show_int i = (if i < 0 then CHR ''-'' # show_nat (nat (- i)) else show_nat (nat i))"

subsection \<open>\<^verbatim>\<open>Array.prototype.join\<close> and \<^verbatim>\<open>ToString\<close>\<close>

fun join :: "string \<Rightarrow> string list \<Rightarrow> string" where
  "join sep [] = []"
| "join sep [x] = x"
| "join sep (x # y # ys) = x @ sep @ join sep (y # ys)"

text \<open>\<^verbatim>\<open>ToString\<close>, the conversion a template literal \<^verbatim>\<open>`${v}`\<close> applies. An array is
  joined with commas, its \<^verbatim>\<open>undefined\<close> and \<^verbatim>\<open>null\<close> elements printing as nothing.\<close>

fun to_string :: "jsval \<Rightarrow> string" where
  "to_string JUndefined = ''undefined''"
| "to_string JNull = ''null''"
| "to_string (JBool b) = (if b then ''true'' else ''false'')"
| "to_string (JNum n) = show_int n"
| "to_string JNaN = ''NaN''"
| "to_string (JStr s) = s"
| "to_string (JArr xs) =
     join '','' (map (\<lambda>x. case x of JUndefined \<Rightarrow> [] | JNull \<Rightarrow> [] | _ \<Rightarrow> to_string x) xs)"
| "to_string (JObj ps) = ''[object Object]''"

text \<open>\<^verbatim>\<open>ToBoolean\<close>, the test of \<^verbatim>\<open>if (target && id)\<close>.\<close>

fun truthy :: "jsval \<Rightarrow> bool" where
  "truthy JUndefined = False"
| "truthy JNull = False"
| "truthy (JBool b) = b"
| "truthy (JNum n) = (n \<noteq> 0)"
| "truthy JNaN = False"
| "truthy (JStr s) = (s \<noteq> [])"
| "truthy (JArr xs) = True"
| "truthy (JObj ps) = True"

subsection \<open>Property access\<close>

text \<open>\<^verbatim>\<open>o.k\<close> on a plain object: the own property, or \<^verbatim>\<open>undefined\<close>.\<close>

definition own_prop :: "props \<Rightarrow> string \<Rightarrow> jsval" where
  "own_prop ps k = (case map_of ps k of None \<Rightarrow> JUndefined | Some v \<Rightarrow> v)"

text \<open>\<^verbatim>\<open>v.k\<close> on any value, as in \<^verbatim>\<open>json.id\<close> and in the destructuring
  \<^verbatim>\<open>const {page, perPage} = v\<close>: a \<^verbatim>\<open>TypeError\<close> on \<^verbatim>\<open>undefined\<close> and \<^verbatim>\<open>null\<close>. Only own
  data properties are modelled; none of the names the provider reads this way
  (\<^verbatim>\<open>page\<close>, \<^verbatim>\<open>perPage\<close>, \<^verbatim>\<open>field\<close>, \<^verbatim>\<open>order\<close>, \<^verbatim>\<open>id\<close>) is a member of a prototype.\<close>

definition index_of :: "nat \<Rightarrow> string \<Rightarrow> nat option" where
  "index_of n k = find (\<lambda>i. show_nat i = k) [0..<n]"

fun get :: "jsval \<Rightarrow> string \<Rightarrow> 'e failure + jsval" where
  "get JUndefined k = Inl TypeError"
| "get JNull k = Inl TypeError"
| "get (JObj ps) k = Inr (own_prop ps k)"
| "get (JArr xs) k =
     Inr (if k = ''length'' then JNum (int (length xs))
          else case index_of (length xs) k of None \<Rightarrow> JUndefined | Some i \<Rightarrow> xs ! i)"
| "get (JStr s) k =
     Inr (if k = ''length'' then JNum (int (length s))
          else case index_of (length s) k of None \<Rightarrow> JUndefined | Some i \<Rightarrow> JStr [s ! i])"
| "get v k = Inr JUndefined"

text \<open>\<^verbatim>\<open>Object.entries\<close>.\<close>

fun object_entries :: "jsval \<Rightarrow> 'e failure + props" where
  "object_entries JUndefined = Inl TypeError"
| "object_entries JNull = Inl TypeError"
| "object_entries (JObj ps) = Inr ps"
| "object_entries (JArr xs) = Inr (zip (map show_nat [0..<length xs]) xs)"
| "object_entries (JStr s) = Inr (zip (map show_nat [0..<length s]) (map (\<lambda>c. JStr [c]) s))"
| "object_entries v = Inr []"

text \<open>The values \<^verbatim>\<open>for (const id of v)\<close> runs through; a value that is not iterable
  raises.\<close>

fun iterate :: "jsval \<Rightarrow> 'e failure + jsval list" where
  "iterate (JArr xs) = Inr xs"
| "iterate (JStr s) = Inr (map (\<lambda>c. JStr [c]) s)"
| "iterate v = Inl TypeError"

text \<open>\<^verbatim>\<open>v.join(sep)\<close>: defined on arrays; on anything else \<^verbatim>\<open>v.join\<close> is not a
  function (or \<^verbatim>\<open>v\<close> has no properties at all) and the call raises.\<close>

fun array_join :: "jsval \<Rightarrow> string \<Rightarrow> 'e failure + string" where
  "array_join (JArr xs) sep =
     Inr (join sep (map (\<lambda>x. case x of JUndefined \<Rightarrow> [] | JNull \<Rightarrow> [] | _ \<Rightarrow> to_string x) xs))"
| "array_join v sep = Inl TypeError"

subsection \<open>\<^verbatim>\<open>JSON.stringify\<close>\<close>

definition hex_lower :: "nat \<Rightarrow> char" where
  "hex_lower d = ''0123456789abcdef'' ! (d mod 16)"

definition hex_upper :: "nat \<Rightarrow> char" where
  "hex_upper d = ''0123456789ABCDEF'' ! (d mod 16)"

definition json_escape_char :: "char \<Rightarrow> string" where
  "json_escape_char c =
     (if c = CHR 0x22 then [CHR 0x5C, CHR 0x22]
      else if c = CHR 0x5C then [CHR 0x5C, CHR 0x5C]
      else if c = CHR 0x08 then [CHR 0x5C, CHR ''b'']
      else if c = CHR 0x09 then [CHR 0x5C, CHR ''t'']
      else if c = CHR 0x0A then [CHR 0x5C, CHR ''n'']
      else if c = CHR 0x0C then [CHR 0x5C, CHR ''f'']
      else if c = CHR 0x0D then [CHR 0x5C, CHR ''r'']
      else if (of_char c :: nat) < 32
        then [CHR 0x5C, CHR ''u'', CHR ''0'', CHR ''0'',
              hex_lower (of_char c div 16), hex_lower (of_char c mod 16)]
      else [c])"

text \<open>\<^verbatim>\<open>JSON.stringify\<close> of a string: the quoted string with its escapes.\<close>

definition json_quote :: "string \<Rightarrow> string" where
  "json_quote s = CHR 0x22 # concat (map json_escape_char s) @ [CHR 0x22]"

text \<open>\<^verbatim>\<open>JSON.stringify\<close> of a value; \<open>None\<close> is the result \<^verbatim>\<open>undefined\<close>. A property
  whose value is \<^verbatim>\<open>undefined\<close> is left out of an object and printed as \<^verbatim>\<open>null\<close> in an
  array.\<close>

fun json_stringify :: "jsval \<Rightarrow> string option" where
  "json_stringify JUndefined = None"
| "json_stringify JNull = Some ''null''"
| "json_stringify (JBool b) = Some (if b then ''true'' else ''false'')"
| "json_stringify (JNum n) = Some (show_int n)"
| "json_stringify JNaN = Some ''null''"
| "json_stringify (JStr s) = Some (json_quote s)"
| "json_stringify (JArr xs) =
     Some (''['' @ join '','' (map (\<lambda>x. case json_stringify x of None \<Rightarrow> ''null'' | Some t \<Rightarrow> t) xs)
           @ '']'')"
| "json_stringify (JObj ps) =
     Some (''{'' @ join '','' (concat (map (\<lambda>p. case json_stringify (snd p) of None \<Rightarrow> []
                                     | Some t \<Rightarrow> [json_quote (fst p) @ '':'' @ t]) ps))
           @ ''}'')"

subsection \<open>\<^verbatim>\<open>String.prototype.split\<close>, \<^verbatim>\<open>Array.prototype.pop\<close>, \<^verbatim>\<open>parseInt\<close>\<close>

text \<open>\<^verbatim>\<open>s.split(c)\<close> for a separator of one character; the result is never empty.\<close>

fun split_on :: "char \<Rightarrow> string \<Rightarrow> string list" where
  "split_on c [] = [[]]"
| "split_on c (x # xs) =
     (if x = c then [] # split_on c xs
      else case split_on c xs of [] \<Rightarrow> [[x]] | s # ss \<Rightarrow> (x # s) # ss)"

definition array_pop :: "string list \<Rightarrow> jsval" where
  "array_pop ss = (if ss = [] then JUndefined else JStr (last ss))"

definition is_digit :: "char \<Rightarrow> bool" where
  "is_digit c = (CHR ''0'' \<le> c \<and> c \<le> CHR ''9'')"

definition digit_val :: "char \<Rightarrow> nat" where
  "digit_val c = of_char c - 48"

definition is_space :: "char \<Rightarrow> bool" where
  "is_space c = (c \<in> {CHR 0x09, CHR 0x0A, CHR 0x0B, CHR 0x0C, CHR 0x0D, CHR 0x20})"

definition digits_value :: "string \<Rightarrow> nat" where
  "digits_value z = foldl (\<lambda>a c. 10 * a + digit_val c) 0 z"

text \<open>\<^verbatim>\<open>parseInt(v, 10)\<close>: the argument is converted to a string, leading white space
  and one sign are skipped, and the longest prefix of decimal digits is read; with no
  digit there the result is \<^verbatim>\<open>NaN\<close>.\<close>

definition parseInt :: "jsval \<Rightarrow> jsval" where
  "parseInt v =
     (let s = dropWhile is_space (to_string v);
          neg = (case s of [] \<Rightarrow> False | c # cs \<Rightarrow> c = CHR ''-'');
          s' = (case s of [] \<Rightarrow> [] | c # cs \<Rightarrow> if c = CHR ''+'' \<or> c = CHR ''-'' then cs else s);
          z = takeWhile is_digit s'
      in if z = [] then JNaN
         else JNum ((if neg then - 1 else 1) * int (digits_value z)))"

subsection \<open>URL encoding and the query serializer\<close>

definition percent :: "char \<Rightarrow> string" where
  "percent c = [CHR ''%'', hex_upper (of_char c div 16), hex_upper (of_char c mod 16)]"

definition uri_unreserved :: "char \<Rightarrow> bool" where
  "uri_unreserved c =
     ((CHR ''a'' \<le> c \<and> c \<le> CHR ''z'') \<or> (CHR ''A'' \<le> c \<and> c \<le> CHR ''Z'') \<or> is_digit c
      \<or> c \<in> {CHR ''-'', CHR ''_'', CHR ''.'', CHR ''!'', CHR ''~'', CHR ''*'', CHR 0x27,
               CHR ''('', CHR '')''})"

text \<open>\<^verbatim>\<open>encodeURIComponent\<close>; a character outside ASCII stands for one byte of the
  UTF-8 encoding.\<close>

definition encodeURIComponent :: "jsval \<Rightarrow> string" where
  "encodeURIComponent v =
     concat (map (\<lambda>c. if uri_unreserved c then [c] else percent c) (to_string v))"

text \<open>The provider imports \<^verbatim>\<open>stringify\<close> from the package \<^verbatim>\<open>query-string\<close>, which is
  not part of the repository: the provider below takes the serializer as a parameter.
  \<open>qs_stringify\<close> is the package's serializer with its default options, used where
  a URL is computed: the keys are sorted, a key and a value are encoded by
  \<^verbatim>\<open>encodeURIComponent\<close> with \<^verbatim>\<open>!'()*\<close> escaped too, a key whose value is \<^verbatim>\<open>undefined\<close> is
  left out, \<^verbatim>\<open>null\<close> gives the bare key and an array repeats the key. The package does
  not descend into a nested object: like any other value it is converted to a string
  by \<^verbatim>\<open>encodeURIComponent\<close>, and an object prints as \<^verbatim>\<open>[object Object]\<close>.\<close>

definition strict_uri_encode :: "jsval \<Rightarrow> string" where
  "strict_uri_encode v =
     concat (map (\<lambda>c. if c \<in> {CHR ''!'', CHR 0x27, CHR ''('', CHR '')'', CHR ''*''}
                       then percent c else [c])
                 (encodeURIComponent v))"

definition qs_pair :: "string \<Rightarrow> jsval \<Rightarrow> string list" where
  "qs_pair k v =
     (case v of
        JUndefined \<Rightarrow> []
      | JNull \<Rightarrow> [strict_uri_encode (JStr k)]
      | _ \<Rightarrow> [strict_uri_encode (JStr k) @ ''='' @ strict_uri_encode v])"

definition qs_stringify :: "props \<Rightarrow> string" where
  "qs_stringify obj =
     join ''&'' (filter (\<lambda>x. x \<noteq> [])
       (map (\<lambda>(k, v). case v of
                 JUndefined \<Rightarrow> []
               | JNull \<Rightarrow> strict_uri_encode (JStr k)
               | JArr xs \<Rightarrow> join ''&'' (concat (map (qs_pair k) xs))
               | _ \<Rightarrow> strict_uri_encode (JStr k) @ ''='' @ strict_uri_encode v)
            (sort_key fst obj)))"

section \<open>The provider\<close>

text \<open>
  The default export of \<^verbatim>\<open>src/thecore.js\<close> takes the base URL, the HTTP client and the
  name of the count header, and returns an object of nine operations; the record of
  these three holds the imported serializer as well. The HTTP client
  is the transport: called with a URL and optional options, it resolves with the
  response headers and the decoded JSON, or rejects. An operation is modelled by what
  it does: the list of the transport calls it issued, and how its promise settles
  (\<open>Inr\<close> the value it resolves with, \<open>Inl\<close> the failure). The field \<^verbatim>\<open>method\<close> of
  the options is \<open>http_method\<close> here and the parameter \<^verbatim>\<open>id\<close> of \<^verbatim>\<open>computeFilters\<close> is
  \<open>ident\<close>, the source's names being taken in Isabelle.
\<close>

record options =
  http_method :: string
  body :: "string option"

record response =
  headers :: "string \<Rightarrow> string option"
  json :: jsval

type_synonym request = "string \<times> options option"

record 'e provider =
  apiUrl :: string
  httpClient :: "string \<Rightarrow> options option \<Rightarrow> 'e + response"
  countHeader :: string
  stringify :: "props \<Rightarrow> string"

record 'e outcome =
  calls :: "request list"
  result :: "'e failure + jsval"

text \<open>An exception raised before the transport is called.\<close>

definition throw :: "'e failure \<Rightarrow> 'e outcome" where
  "throw err = \<lparr>calls = [], result = Inl err\<rparr>"

definition attempt :: "'e failure + 'a \<Rightarrow> ('a \<Rightarrow> 'e outcome) \<Rightarrow> 'e outcome" where
  "attempt x k = (case x of Inl err \<Rightarrow> throw err | Inr v \<Rightarrow> k v)"

text \<open>Sequencing of two steps that may raise.\<close>

definition and_then :: "'e failure + 'a \<Rightarrow> ('a \<Rightarrow> 'e failure + 'b) \<Rightarrow> 'e failure + 'b" where
  "and_then x k = (case x of Inl err \<Rightarrow> Inl err | Inr v \<Rightarrow> k v)"

text \<open>\<^verbatim>\<open>httpClient(url, opts).then(k)\<close>: one call; a rejection passes through \<^verbatim>\<open>then\<close>
  untouched, a response goes to the callback, which may itself raise.\<close>

definition request_then ::
  "'e provider \<Rightarrow> string \<Rightarrow> options option \<Rightarrow> (response \<Rightarrow> 'e failure + jsval) \<Rightarrow> 'e outcome" where
  "request_then p u opts k =
     \<lparr>calls = [(u, opts)],
      result = (case httpClient p u opts of Inl e \<Rightarrow> Inl (Rejected e) | Inr r \<Rightarrow> k r)\<rparr>"

text \<open>The spread \<^verbatim>\<open>{...v}\<close> into an object under construction: the own enumerable
  properties of \<^verbatim>\<open>v\<close> are assigned in order.\<close>

definition spread :: "props \<Rightarrow> jsval \<Rightarrow> props" where
  "spread obj v =
     foldl (\<lambda>acc (k, x). AList.update k x acc) obj
       (case v of
          JObj ps \<Rightarrow> ps
        | JArr xs \<Rightarrow> zip (map show_nat [0..<length xs]) xs
        | JStr s \<Rightarrow> zip (map show_nat [0..<length s]) (map (\<lambda>c. JStr [c]) s)
        | _ \<Rightarrow> [])"

text \<open>\<^verbatim>\<open>JSON.stringify(v)\<close> as a JavaScript value.\<close>

definition json_value :: "jsval \<Rightarrow> jsval" where
  "json_value v = (case json_stringify v of None \<Rightarrow> JUndefined | Some t \<Rightarrow> JStr t)"

subsection \<open>\<^verbatim>\<open>computeFilters\<close>\<close>

text \<open>Every property names \<^verbatim>\<open>computeFilters\<close> creates ends in \<^verbatim>\<open>_eq\<close> or is one of
  \<^verbatim>\<open>s\<close>, \<^verbatim>\<open>q\<close>, \<^verbatim>\<open>page\<close>, \<^verbatim>\<open>per\<close>; none is an array index, so the objects keep their
  properties in the order of creation.\<close>

definition computeFilters ::
  "jsval \<Rightarrow> jsval \<Rightarrow> jsval \<Rightarrow> jsval \<Rightarrow> jsval \<Rightarrow> jsval \<Rightarrow> jsval \<Rightarrow> 'e failure + props" where
  "computeFilters object page perPage field order target ident =
     (case object_entries object of
        Inl err \<Rightarrow> Inl err
      | Inr entries \<Rightarrow>
          let filters = foldl (\<lambda>fs (key, value). AList.update (key @ ''_eq'') value fs) [] entries;
              filters = (if truthy target \<and> truthy ident
                         then AList.update (to_string target @ ''_eq'') ident filters
                         else filters)
          in Inr [(''q'', JObj (spread
                      [(''s'', json_value (JStr (to_string field @ '' '' @ to_string order)))]
                      (JObj filters))),
                  (''page'', page),
                  (''per'', perPage)])"

subsection \<open>The response callbacks\<close>

text \<open>\<^verbatim>\<open>({json}) => ({data: json})\<close>\<close>

definition data_result :: "response \<Rightarrow> 'e failure + jsval" where
  "data_result r = Inr (JObj [(''data'', json r)])"

text \<open>\<^verbatim>\<open>({headers, json}) => ({data: json, total: parseInt(headers.get(h).split('/').pop(), 10)})\<close>;
  \<^verbatim>\<open>headers.get\<close> gives \<^verbatim>\<open>null\<close> for a header that is absent, and \<^verbatim>\<open>null.split\<close> raises.\<close>

definition list_result :: "string \<Rightarrow> response \<Rightarrow> 'e failure + jsval" where
  "list_result h r =
     (case headers r h of
        None \<Rightarrow> Inl TypeError
      | Some v \<Rightarrow>
          Inr (JObj [(''data'', json r),
                     (''total'', parseInt (array_pop (split_on CHR ''/'' v)))]))"

subsection \<open>The operations\<close>

text \<open>\<^verbatim>\<open>getList\<close> up to the query object it hands to the serializer: the two
  destructurings and the call of \<^verbatim>\<open>computeFilters\<close>, which gets no target and no id.\<close>

definition getList_query :: "props \<Rightarrow> 'e failure + props" where
  "getList_query params =
     and_then (get (own_prop params ''paginate'') ''page'') (\<lambda>page.
     and_then (get (own_prop params ''paginate'') ''perPage'') (\<lambda>perPage.
     and_then (get (own_prop params ''sort'') ''field'') (\<lambda>field.
     and_then (get (own_prop params ''sort'') ''order'') (\<lambda>order.
     computeFilters (own_prop params ''filter'') page perPage field order
       JUndefined JUndefined))))"

definition getList :: "'e provider \<Rightarrow> string \<Rightarrow> props \<Rightarrow> 'e outcome" where
  "getList p resource params =
     attempt (getList_query params) (\<lambda>query.
     request_then p (apiUrl p @ ''/'' @ resource @ ''?'' @ stringify p query) None
       (list_result (countHeader p)))"

definition getOne :: "'e provider \<Rightarrow> string \<Rightarrow> props \<Rightarrow> 'e outcome" where
  "getOne p resource params =
     request_then p (apiUrl p @ ''/'' @ resource @ ''/'' @ to_string (own_prop params ''id''))
       None data_result"

text \<open>The loop of \<^verbatim>\<open>getMany\<close>, pushing one segment for each id.\<close>

fun getMany_loop :: "jsval list \<Rightarrow> string list \<Rightarrow> string list" where
  "getMany_loop [] query = query"
| \<open>getMany_loop (i # ids) query = getMany_loop ids (query @ [''q["id_in"][]='' @ to_string i])\<close>

definition getMany :: "'e provider \<Rightarrow> string \<Rightarrow> props \<Rightarrow> 'e outcome" where
  "getMany p resource params =
     attempt (iterate (own_prop params ''ids'')) (\<lambda>ids.
     request_then p (apiUrl p @ ''/'' @ resource @ ''?'' @ join ''&'' (getMany_loop ids []))
       None data_result)"

text \<open>\<^verbatim>\<open>getManyReference\<close> up to its query object.\<close>

definition getManyReference_query :: "props \<Rightarrow> 'e failure + props" where
  "getManyReference_query params =
     and_then (get (own_prop params ''pagination'') ''page'') (\<lambda>page.
     and_then (get (own_prop params ''pagination'') ''perPage'') (\<lambda>perPage.
     and_then (get (own_prop params ''sort'') ''field'') (\<lambda>field.
     and_then (get (own_prop params ''sort'') ''order'') (\<lambda>order.
     computeFilters (own_prop params ''filter'') page perPage field order
       (own_prop params ''target'') (own_prop params ''id'')))))"

definition getManyReference :: "'e provider \<Rightarrow> string \<Rightarrow> props \<Rightarrow> 'e outcome" where
  "getManyReference p resource params =
     attempt (getManyReference_query params) (\<lambda>query.
     request_then p (apiUrl p @ ''/'' @ resource @ ''?'' @ stringify p query) None
       (list_result (countHeader p)))"

definition create :: "'e provider \<Rightarrow> string \<Rightarrow> props \<Rightarrow> 'e outcome" where
  "create p resource params =
     request_then p (apiUrl p @ ''/'' @ resource)
       (Some \<lparr>http_method = ''POST'',
              body = json_stringify (JObj [(resource, own_prop params ''data'')])\<rparr>)
       (\<lambda>r. case get (json r) ''id'' of
               Inl err \<Rightarrow> Inl err
             | Inr i \<Rightarrow>
                 Inr (JObj [(''data'',
                        JObj (AList.update ''id'' i (spread [] (own_prop params ''data''))))]))"

definition update :: "'e provider \<Rightarrow> string \<Rightarrow> props \<Rightarrow> 'e outcome" where
  "update p resource params =
     request_then p (apiUrl p @ ''/'' @ resource @ ''/'' @ to_string (own_prop params ''id''))
       (Some \<lparr>http_method = ''PUT'',
              body = json_stringify (JObj [(resource, own_prop params ''data'')])\<rparr>)
       data_result"

text \<open>The query object of \<^verbatim>\<open>updateMany\<close> and \<^verbatim>\<open>deleteMany\<close>:
  \<^verbatim>\<open>{ids: JSON.stringify(params.ids.join(","))}\<close>.\<close>

definition ids_query :: "props \<Rightarrow> 'e failure + props" where
  "ids_query params =
     and_then (array_join (own_prop params ''ids'') '','') (\<lambda>joined.
     Inr [(''ids'', json_value (JStr joined))])"

definition updateMany :: "'e provider \<Rightarrow> string \<Rightarrow> props \<Rightarrow> 'e outcome" where
  "updateMany p resource params =
     attempt (ids_query params) (\<lambda>query.
     request_then p (apiUrl p @ ''/'' @ resource @ ''/multi?'' @ stringify p query)
       (Some \<lparr>http_method = ''PUT'',
              body = json_stringify (JObj [(resource, own_prop params ''data'')])\<rparr>)
       data_result)"

definition delete :: "'e provider \<Rightarrow> string \<Rightarrow> props \<Rightarrow> 'e outcome" where
  "delete p resource params =
     request_then p (apiUrl p @ ''/'' @ resource @ ''/'' @ to_string (own_prop params ''id''))
       (Some \<lparr>http_method = ''DELETE'', body = None\<rparr>)
       data_result"

definition deleteMany :: "'e provider \<Rightarrow> string \<Rightarrow> props \<Rightarrow> 'e outcome" where
  "deleteMany p resource params =
     attempt (ids_query params) (\<lambda>query.
     request_then p (apiUrl p @ ''/'' @ resource @ ''/multi?'' @ stringify p query)
       (Some \<lparr>http_method = ''DELETE'', body = None\<rparr>)
       data_result)"

section \<open>Decoding a JSON string\<close>

text \<open>The inverse of \<open>json_quote\<close>, for stating that a value JSON-decodes to a given
  string: the string literal grammar of JSON, with the escapes \<^verbatim>\<open>\uXXXX\<close> restricted
  to the characters a \<open>string\<close> here can hold.\<close>

definition hex_value :: "char \<Rightarrow> nat option" where
  "hex_value c =
     (if is_digit c then Some (of_char c - 48)
      else if CHR ''a'' \<le> c \<and> c \<le> CHR ''f'' then Some (of_char c - 87)
      else if CHR ''A'' \<le> c \<and> c \<le> CHR ''F'' then Some (of_char c - 55)
      else None)"

definition simple_escape :: "char \<Rightarrow> char option" where
  "simple_escape e =
     (if e = CHR 0x22 \<or> e = CHR 0x5C \<or> e = CHR ''/'' then Some e
      else if e = CHR ''b'' then Some (CHR 0x08)
      else if e = CHR ''t'' then Some (CHR 0x09)
      else if e = CHR ''n'' then Some (CHR 0x0A)
      else if e = CHR ''f'' then Some (CHR 0x0C)
      else if e = CHR ''r'' then Some (CHR 0x0D)
      else None)"

fun json_unescape :: "string \<Rightarrow> string option" where
  "json_unescape [] = None"
| "json_unescape (c # cs) =
     (if c = CHR 0x22 then (if cs = [] then Some [] else None)
      else if c = CHR 0x5C then
        (case cs of
           [] \<Rightarrow> None
         | e # rest \<Rightarrow>
             if e = CHR ''u'' then
               (case rest of
                  h1 # h2 # h3 # h4 # rest' \<Rightarrow>
                    (case (hex_value h1, hex_value h2, hex_value h3, hex_value h4) of
                       (Some a, Some b, Some m, Some n) \<Rightarrow>
                         if a = 0 \<and> b = 0
                         then map_option ((#) (char_of (16 * m + n))) (json_unescape rest')
                         else None
                     | _ \<Rightarrow> None)
                | _ \<Rightarrow> None)
             else (case simple_escape e of
                     None \<Rightarrow> None
                   | Some x \<Rightarrow> map_option ((#) x) (json_unescape rest)))
      else if (of_char c :: nat) < 32 then None
      else map_option ((#) c) (json_unescape cs))"

definition json_parse_string :: "string \<Rightarrow> string option" where
  "json_parse_string s =
     (case s of [] \<Rightarrow> None | c # cs \<Rightarrow> if c = CHR 0x22 then json_unescape cs else None)"

section \<open>A failure of the transport, passed on\<close>

text \<open>What the claims say of an operation and a failing transport, as two predicates on
  what the operation did. It issued exactly one call, and if that call was rejected
  the operation fails with the error of the rejection; or it raised a \<^verbatim>\<open>TypeError\<close>
  while building its request and never called the transport.\<close>

definition one_call_passing_failure :: "'e provider \<Rightarrow> 'e outcome \<Rightarrow> bool" where
  "one_call_passing_failure p out =
     (\<exists>u opts. calls out = [(u, opts)] \<and>
        (\<forall>e. httpClient p u opts = Inl e \<longrightarrow> result out = Inl (Rejected e)))"

definition raised_before_calling :: "'e outcome \<Rightarrow> bool" where
  "raised_before_calling out = (calls out = [] \<and> result out = Inl TypeError)"

section \<open>Example inputs\<close>

text \<open>A provider over a transport that settles every call the same way, and the
  parameters of the README's examples.\<close>

definition demo_headers :: "string \<Rightarrow> string \<Rightarrow> string option" where
  "demo_headers v h = (if h = ''Content-Range'' then Some v else None)"

definition demo_provider :: "(unit + response) \<Rightarrow> unit provider" where
  "demo_provider answer =
     \<lparr>apiUrl = ''http://my.api.url'', httpClient = (\<lambda>u opts. answer),
      countHeader = ''Content-Range'', stringify = qs_stringify\<rparr>"

definition demo_list_params :: props where
  "demo_list_params =
     [(''paginate'', JObj [(''page'', JNum 1), (''perPage'', JNum 4)]),
      (''sort'', JObj [(''field'', JStr ''email''), (''order'', JStr ''ASC'')]),
      (''filter'', JObj [(''author_id'', JNum 12)])]"

definition demo_response :: "string \<Rightarrow> jsval \<Rightarrow> response" where
  "demo_response v j = \<lparr>headers = demo_headers v, json = j\<rparr>"

definition demo_reference_params :: props where
  "demo_reference_params =
     [(''pagination'', JObj [(''page'', JNum 1), (''perPage'', JNum 4)]),
      (''sort'', JObj [(''field'', JStr ''email''), (''order'', JStr ''ASC'')]),
      (''filter'', JObj []),
      (''target'', JStr ''post_id''),
      (''id'', JNum 1)]"

definition demo_zero_reference_params :: props where
  "demo_zero_reference_params =
     [(''pagination'', JObj [(''page'', JNum 1), (''perPage'', JNum 4)]),
      (''sort'', JObj [(''field'', JStr ''title''), (''order'', JStr ''ASC'')]),
      (''filter'', JObj []),
      (''target'', JStr ''author_id''),
      (''id'', JNum 0)]"

definition demo_ids_params :: props where
  "demo_ids_params =
     [(''ids'', JArr [JNum 123, JNum 124, JNum 125]),
      (''data'', JObj [(''title'', JStr ''hello, world!'')])]"

section \<open>Facts about the built-in functions\<close>

lemma digit_char_is_digit: "d < 10 \<Longrightarrow> is_digit (digit_char d)"
  unfolding is_digit_def digit_char_def
  by (simp add: less_eq_char_def)

lemma digit_val_digit_char: "d < 10 \<Longrightarrow> digit_val (digit_char d) = d"
  unfolding digit_val_def digit_char_def by simp

lemma show_nat_digits: "c \<in> set (show_nat n) \<Longrightarrow> is_digit c"
proof (induction n arbitrary: c rule: show_nat.induct)
  case (1 n)
  show ?case
  proof (cases "n < 10")
    case True
    with "1.prems" show ?thesis
      by (simp add: show_nat.simps [of n] digit_char_is_digit)
  next
    case False
    with "1.prems" "1.IH" show ?thesis
      by (auto simp: show_nat.simps [of n] digit_char_is_digit)
  qed
qed

lemma show_nat_nonempty: "show_nat n \<noteq> []"
  by (simp add: show_nat.simps [of n])

lemma digits_value_snoc: "digits_value (z @ [c]) = 10 * digits_value z + digit_val c"
  by (simp add: digits_value_def)

lemma digits_value_show_nat: "digits_value (show_nat n) = n"
proof (induction n rule: show_nat.induct)
  case (1 n)
  show ?case
  proof (cases "n < 10")
    case True
    then show ?thesis
      by (simp add: show_nat.simps [of n] digits_value_def digit_val_digit_char)
  next
    case False
    with "1.IH" show ?thesis
      by (simp add: show_nat.simps [of n] digits_value_snoc digit_val_digit_char)
  qed
qed

lemma split_on_nonempty: "split_on c s \<noteq> []"
  by (induction s) (auto split: list.splits)

lemma split_on_none: "c \<notin> set seg \<Longrightarrow> split_on c seg = [seg]"
  by (induction seg) auto

lemma length_split_on: "length (split_on c s) = Suc (length (filter (\<lambda>x. x = c) s))"
  by (induction s) (auto split: list.splits)

lemma last_split_on_append: "last (split_on c (pre @ c # seg)) = last (split_on c seg)"
proof (induction pre)
  case Nil
  then show ?case by (simp add: split_on_nonempty)
next
  case (Cons x pre)
  have "length (split_on c (pre @ c # seg)) \<ge> 2"
    by (simp add: length_split_on)
  then obtain a b bs where "split_on c (pre @ c # seg) = a # b # bs"
    by (cases "split_on c (pre @ c # seg)") (auto simp: Suc_le_length_iff)
  with Cons show ?case by auto
qed

lemma pop_split_on:
  "CHR ''/'' \<notin> set seg \<Longrightarrow> array_pop (split_on CHR ''/'' (pre @ CHR ''/'' # seg)) = JStr seg"
  by (simp add: array_pop_def split_on_nonempty last_split_on_append split_on_none)

lemma pop_split_on_whole:
  "CHR ''/'' \<notin> set seg \<Longrightarrow> array_pop (split_on CHR ''/'' seg) = JStr seg"
  by (simp add: array_pop_def split_on_none)

lemma is_digit_not_space: "is_digit c \<Longrightarrow> \<not> is_space c"
  by (auto simp: is_digit_def is_space_def less_eq_char_def)

lemma is_digit_not_sign: "is_digit c \<Longrightarrow> c \<noteq> CHR ''+'' \<and> c \<noteq> CHR ''-''"
  by (auto simp: is_digit_def less_eq_char_def)

lemma is_digit_not_slash: "is_digit c \<Longrightarrow> c \<noteq> CHR ''/''"
  by (auto simp: is_digit_def less_eq_char_def)

lemma parseInt_digits:
  assumes "z \<noteq> []" and "\<forall>c\<in>set z. is_digit c"
  shows "parseInt (JStr z) = JNum (int (digits_value z))"
proof -
  from assms obtain c cs where z: "z = c # cs" by (cases z) auto
  with assms have c: "is_digit c" and cs: "takeWhile is_digit cs = cs"
    by (simp_all add: takeWhile_eq_all_conv)
  show ?thesis
    using c is_digit_not_space [OF c] is_digit_not_sign [OF c]
    by (simp add: parseInt_def z Let_def cs)
qed

lemma parseInt_show_nat: "parseInt (JStr (show_nat n)) = JNum (int n)"
  using parseInt_digits [of "show_nat n"]
  by (simp add: show_nat_nonempty show_nat_digits digits_value_show_nat)

lemma takeWhile_no_digit: "\<forall>c\<in>set s. \<not> is_digit c \<Longrightarrow> takeWhile is_digit s = []"
  by (cases s) auto

lemma parseInt_no_digit:
  assumes "\<forall>c\<in>set s. \<not> is_digit c"
  shows "parseInt (JStr s) = JNaN"
proof -
  define t where "t = dropWhile is_space s"
  have "set t \<subseteq> set s" unfolding t_def by (auto dest: set_dropWhileD)
  with assms have nd: "\<forall>c\<in>set t. \<not> is_digit c" by blast
  have "takeWhile is_digit
          (case t of [] \<Rightarrow> [] | c # cs \<Rightarrow> if c = CHR ''+'' \<or> c = CHR ''-'' then cs else t) = []"
    using nd by (cases t) (auto simp: takeWhile_no_digit)
  then show ?thesis
    unfolding t_def by (simp add: parseInt_def Let_def)
qed

lemma getMany_loop_map:
  \<open>getMany_loop ids query = query @ map (\<lambda>i. ''q["id_in"][]='' @ to_string i) ids\<close>
  by (induction ids arbitrary: query) auto

section \<open>Facts about the operations and the example inputs\<close>

lemma getList_settles:
  assumes "calls (getList p resource params) = [(u, opts)]"
  shows "result (getList p resource params) =
           (case httpClient p u opts of Inl e \<Rightarrow> Inl (Rejected e)
            | Inr r \<Rightarrow> list_result (countHeader p) r)"
  using assms
  by (cases "getList_query params :: 'a failure + props")
     (auto simp: getList_def attempt_def throw_def request_then_def)

lemma getManyReference_settles:
  assumes "calls (getManyReference p resource params) = [(u, opts)]"
  shows "result (getManyReference p resource params) =
           (case httpClient p u opts of Inl e \<Rightarrow> Inl (Rejected e)
            | Inr r \<Rightarrow> list_result (countHeader p) r)"
  using assms
  by (cases "getManyReference_query params :: 'a failure + props")
     (auto simp: getManyReference_def attempt_def throw_def request_then_def)

lemma list_result_counted:
  assumes "headers r h = Some (pre @ ''/'' @ show_nat t)"
  shows "list_result h r = Inr (JObj [(''data'', json r), (''total'', JNum (int t))])"
proof -
  have "CHR ''/'' \<notin> set (show_nat t)"
    using show_nat_digits is_digit_not_slash by blast
  then have "array_pop (split_on CHR ''/'' (pre @ CHR ''/'' # show_nat t)) = JStr (show_nat t)"
    by (rule pop_split_on)
  with assms show ?thesis
    by (simp add: list_result_def parseInt_show_nat)
qed

lemma show_nat_0: "show_nat 0 = ''0''"
  by code_simp

lemma show_nat_4: "show_nat 4 = ''4''"
  by code_simp

lemma show_nat_27: "show_nat 27 = ''27''"
  by code_simp

lemma demo_getList_calls:
  "calls (getList (demo_provider a) ''posts'' demo_list_params) =
     [(''http://my.api.url/posts?'' @ qs_stringify
         [(''q'', JObj [(''s'', JStr (json_quote ''email ASC'')), (''author_id_eq'', JNum 12)]),
          (''page'', JNum 1), (''per'', JNum 4)], None)]"
  by (simp add: getList_def getList_query_def demo_list_params_def demo_provider_def
      own_prop_def and_then_def attempt_def request_then_def computeFilters_def
      spread_def json_value_def)

lemma show_int_123: "show_int 123 = ''123''"
  by code_simp

lemma show_int_124: "show_int 124 = ''124''"
  by code_simp

lemma show_int_125: "show_int 125 = ''125''"
  by code_simp

lemma pop_trailing_segment:
  assumes "v = pre @ seg" and "pre = [] \<or> last pre = CHR ''/''" and "CHR ''/'' \<notin> set seg"
  shows "array_pop (split_on CHR ''/'' v) = JStr seg"
proof (cases "pre = []")
  case True
  with assms show ?thesis by (simp add: pop_split_on_whole)
next
  case False
  with assms(2) have "pre = butlast pre @ [CHR ''/'']"
    by (metis append_butlast_last_id)
  with assms(1) have "v = butlast pre @ CHR ''/'' # seg"
    by (metis append.assoc append_Cons append_Nil)
  with assms(3) show ?thesis by (simp add: pop_split_on)
qed

lemma parseInt_trailing_no_digit:
  assumes "v = pre @ seg" and "pre = [] \<or> last pre = CHR ''/''" and "CHR ''/'' \<notin> set seg"
    and "\<forall>c\<in>set seg. \<not> is_digit c"
  shows "parseInt (array_pop (split_on CHR ''/'' v)) = JNaN"
  using pop_trailing_segment [OF assms(1-3)] parseInt_no_digit [OF assms(4)] by simp

lemma list_result_cases:
  "(headers r h = None \<longrightarrow> (list_result h r :: 'e failure + jsval) = Inl TypeError) \<and>
   (\<forall>v. headers r h = Some v \<longrightarrow>
      (\<exists>t. (list_result h r :: 'e failure + jsval) = Inr (JObj [(''data'', json r), (''total'', t)]) \<and>
           (\<forall>pre seg. v = pre @ seg \<and> (pre = [] \<or> last pre = CHR ''/'') \<and>
               CHR ''/'' \<notin> set seg \<and> (\<forall>c\<in>set seg. \<not> is_digit c) \<longrightarrow> t = JNaN)))"
proof (intro conjI allI impI)
  assume "headers r h = None"
  then show "(list_result h r :: 'e failure + jsval) = Inl TypeError"
    by (simp add: list_result_def)
next
  fix v
  assume v: "headers r h = Some v"
  let ?t = "parseInt (array_pop (split_on CHR ''/'' v))"
  have "(list_result h r :: 'e failure + jsval) = Inr (JObj [(''data'', json r), (''total'', ?t)])"
    using v by (simp add: list_result_def)
  moreover have "\<forall>pre seg. v = pre @ seg \<and> (pre = [] \<or> last pre = CHR ''/'') \<and>
      CHR ''/'' \<notin> set seg \<and> (\<forall>c\<in>set seg. \<not> is_digit c) \<longrightarrow> ?t = JNaN"
    using parseInt_trailing_no_digit by blast
  ultimately show "\<exists>t. (list_result h r :: 'e failure + jsval) =
      Inr (JObj [(''data'', json r), (''total'', t)]) \<and>
      (\<forall>pre seg. v = pre @ seg \<and> (pre = [] \<or> last pre = CHR ''/'') \<and>
          CHR ''/'' \<notin> set seg \<and> (\<forall>c\<in>set seg. \<not> is_digit c) \<longrightarrow> t = JNaN)"
    by blast
qed

lemma demo_getManyReference_query:
  "(getManyReference_query demo_reference_params :: 'e failure + props) =
     Inr [(''q'', JObj [(''s'', JStr (json_quote ''email ASC'')), (''post_id_eq'', JNum 1)]),
          (''page'', JNum 1), (''per'', JNum 4)]"
  by (simp add: getManyReference_query_def demo_reference_params_def own_prop_def
      and_then_def computeFilters_def spread_def json_value_def)

lemma demo_getManyReference_calls:
  "calls (getManyReference (demo_provider a) ''comments'' demo_reference_params) =
     [(''http://my.api.url/comments?'' @ qs_stringify
         [(''q'', JObj [(''s'', JStr (json_quote ''email ASC'')), (''post_id_eq'', JNum 1)]),
          (''page'', JNum 1), (''per'', JNum 4)], None)]"
  by (simp add: getManyReference_def demo_getManyReference_query attempt_def
      request_then_def demo_provider_def)

section \<open>Facts about JSON strings and object construction\<close>

lemma hex_value_hex_lower:
  assumes "d < 16"
  shows "hex_value (hex_lower d) = Some d"
proof -
  from assms have "d \<in> {0, 1, 2, 3, 4, 5, 6, 7, 8, 9, 10, 11, 12, 13, 14, 15}"
    by simp arith
  then show ?thesis
    by (auto simp: hex_lower_def hex_value_def is_digit_def less_eq_char_def)
qed

lemma json_unescape_escape:
  assumes "json_unescape rest = Some s"
  shows "json_unescape (json_escape_char c @ rest) = Some (c # s)"
proof -
  consider (short) "c \<in> {CHR 0x22, CHR 0x5C, CHR 0x08, CHR 0x09, CHR 0x0A, CHR 0x0C, CHR 0x0D}"
    | (ctrl) "c \<notin> {CHR 0x22, CHR 0x5C, CHR 0x08, CHR 0x09, CHR 0x0A, CHR 0x0C, CHR 0x0D}"
        "(of_char c :: nat) < 32"
    | (plain) "c \<notin> {CHR 0x22, CHR 0x5C, CHR 0x08, CHR 0x09, CHR 0x0A, CHR 0x0C, CHR 0x0D}"
        "\<not> (of_char c :: nat) < 32"
    by blast
  then show ?thesis
  proof cases
    case short
    with assms show ?thesis
      by (auto simp: json_escape_char_def simple_escape_def)
  next
    case ctrl
    let ?n = "of_char c :: nat"
    have d: "?n div 16 < 16" "?n mod 16 < 16" using ctrl(2) by auto
    have z: "hex_value CHR ''0'' = Some 0"
      by (simp add: hex_value_def is_digit_def less_eq_char_def)
    have same: "char_of (16 * (?n div 16) + ?n mod 16) = c"
      by simp
    have esc: "json_escape_char c = [CHR 0x5C, CHR ''u'', CHR ''0'', CHR ''0'',
        hex_lower (?n div 16), hex_lower (?n mod 16)]"
      using ctrl by (simp add: json_escape_char_def)
    show ?thesis
      unfolding esc using assms same
      by (simp add: z hex_value_hex_lower [OF d(1)] hex_value_hex_lower [OF d(2)])
  next
    case plain
    with assms show ?thesis
      by (simp add: json_escape_char_def)
  qed
qed

lemma json_unescape_quoted:
  "json_unescape (concat (map json_escape_char s) @ [CHR 0x22]) = Some s"
  by (induction s) (simp_all add: json_unescape_escape)

lemma json_parse_string_quote: "json_parse_string (json_quote s) = Some s"
  by (simp add: json_parse_string_def json_quote_def json_unescape_quoted)

lemma update_fresh: "k \<notin> fst ` set obj \<Longrightarrow> AList.update k x obj = obj @ [(k, x)]"
  by (induction obj) auto

lemma assign_all_append:
  "distinct (map fst (obj @ ps)) \<Longrightarrow>
   foldl (\<lambda>acc (k, x). AList.update k x acc) obj ps = obj @ ps"
proof (induction ps arbitrary: obj)
  case Nil
  then show ?case by simp
next
  case (Cons a ps)
  obtain k x where a: "a = (k, x)" by (cases a)
  from Cons.prems a have fresh: "k \<notin> fst ` set obj" by auto
  from Cons.prems a have "distinct (map fst ((obj @ [(k, x)]) @ ps))" by auto
  from Cons.IH [OF this] show ?case
    by (simp add: a update_fresh [OF fresh])
qed

lemma filters_loop_assign:
  "foldl (\<lambda>fs (key, value). AList.update (key @ ''_eq'') value fs) acc entries =
   foldl (\<lambda>acc (k, x). AList.update k x acc) acc (map (\<lambda>(k, v). (k @ ''_eq'', v)) entries)"
  by (induction entries arbitrary: acc) auto

lemma filters_loop_distinct:
  "distinct (map fst acc) \<Longrightarrow>
   distinct (map fst (foldl (\<lambda>fs (key, value). AList.update (key @ ''_eq'') value fs) acc entries))"
  by (induction entries arbitrary: acc) (auto simp: distinct_update)

lemma filters_loop_keys:
  "k \<in> fst ` set (foldl (\<lambda>fs (key, value). AList.update (key @ ''_eq'') value fs) acc entries)
   \<Longrightarrow> k \<in> fst ` set acc \<or> (\<exists>key \<in> fst ` set entries. k = key @ ''_eq'')"
proof (induction entries arbitrary: acc)
  case Nil
  then show ?case by simp
next
  case (Cons a entries)
  obtain key v where a: "a = (key, v)" by (cases a)
  from Cons.prems have "k \<in> fst ` set (foldl (\<lambda>fs (key, value). AList.update (key @ ''_eq'') value fs)
      (AList.update (key @ ''_eq'') v acc) entries)"
    by (simp add: a)
  from Cons.IH [OF this] show ?case
    by (auto simp: a dom_update image_iff)
qed

lemma filters_loop_exact:
  assumes "distinct (map fst entries)"
  shows "foldl (\<lambda>fs (key, value). AList.update (key @ ''_eq'') value fs) [] entries =
         map (\<lambda>(k, v). (k @ ''_eq'', v)) entries"
proof -
  have "map fst (map (\<lambda>(k, v). (k @ ''_eq'', v)) entries) = map (\<lambda>k. k @ ''_eq'') (map fst entries)"
    by (induction entries) auto
  then have "distinct (map fst ([] @ map (\<lambda>(k, v). (k @ ''_eq'', v)) entries))"
    using assms by (simp add: distinct_map inj_on_def)
  from assign_all_append [OF this] show ?thesis
    by (simp add: filters_loop_assign)
qed

lemma s_not_eq_key: "''s'' \<noteq> k @ ''_eq''"
  by (cases k) auto

lemma own_prop_update:
  "own_prop (AList.update k v ps) k' = (if k' = k then v else own_prop ps k')"
  by (simp add: own_prop_def update_conv')

lemma filters_loop_no_s:
  "''s'' \<notin> fst ` set (foldl (\<lambda>fs (key, value). AList.update (key @ ''_eq'') value fs) [] entries)"
  using filters_loop_keys [of "''s''" "[]" entries] s_not_eq_key by auto

lemma computeFilters_shape:
  assumes "(object_entries obj :: 'e failure + props) = Inr entries"
  shows "(computeFilters obj page perPage field order tg i :: 'e failure + props) =
     Inr [(''q'', JObj ((''s'', JStr (json_quote (to_string field @ '' '' @ to_string order))) #
             (if truthy tg \<and> truthy i
              then AList.update (to_string tg @ ''_eq'') i
                     (foldl (\<lambda>fs (key, value). AList.update (key @ ''_eq'') value fs) [] entries)
              else foldl (\<lambda>fs (key, value). AList.update (key @ ''_eq'') value fs) [] entries))),
          (''page'', page), (''per'', perPage)]"
proof -
  let ?F = "foldl (\<lambda>fs (key, value). AList.update (key @ ''_eq'') value fs) [] entries"
  let ?F' = "if truthy tg \<and> truthy i then AList.update (to_string tg @ ''_eq'') i ?F else ?F"
  let ?s = "(''s'', JStr (json_quote (to_string field @ '' '' @ to_string order)))"
  have d: "distinct (map fst ?F)"
    by (rule filters_loop_distinct) simp
  then have d': "distinct (map fst ?F')"
    by (simp add: distinct_update)
  have "''s'' \<notin> fst ` set ?F'"
    using filters_loop_no_s [of entries] s_not_eq_key [of "to_string tg"]
    by (auto simp: dom_update)
  with d' have "distinct (map fst ([?s] @ ?F'))" by auto
  from assign_all_append [OF this]
  have "spread [?s] (JObj ?F') = ?s # ?F'"
    by (simp add: spread_def)
  with assms show ?thesis
    by (simp add: computeFilters_def json_value_def Let_def)
qed

lemma computeFilters_falsy:
  "\<not> (truthy tg \<and> truthy i) \<Longrightarrow>
   (computeFilters obj page perPage field order tg i :: 'e failure + props) =
   computeFilters obj page perPage field order JUndefined JUndefined"
  by (cases "object_entries obj :: 'e failure + props")
     (auto simp: computeFilters_def Let_def)

lemma getList_query_paginate:
  "(getList_query (AList.update ''paginate'' (own_prop params ''pagination'') params)
      :: 'e failure + props) =
   and_then (get (own_prop params ''pagination'') ''page'') (\<lambda>page.
   and_then (get (own_prop params ''pagination'') ''perPage'') (\<lambda>perPage.
   and_then (get (own_prop params ''sort'') ''field'') (\<lambda>field.
   and_then (get (own_prop params ''sort'') ''order'') (\<lambda>order.
   computeFilters (own_prop params ''filter'') page perPage field order
     JUndefined JUndefined))))"
  by (simp add: getList_query_def own_prop_update)

lemma getManyReference_query_falsy:
  assumes "\<not> truthy (own_prop params ''id'') \<or> \<not> truthy (own_prop params ''target'')"
  shows "(getManyReference_query params :: 'e failure + props) =
         getList_query (AList.update ''paginate'' (own_prop params ''pagination'') params)"
proof -
  have "(computeFilters obj page perPage field order (own_prop params ''target'')
           (own_prop params ''id'') :: 'e failure + props) =
        computeFilters obj page perPage field order JUndefined JUndefined"
    for obj page perPage field order
    using assms by (intro computeFilters_falsy) blast
  then show ?thesis
    by (simp add: getList_query_paginate getManyReference_query_def)
qed

lemma falsy_query_has_no_reference:
  assumes "\<not> truthy (own_prop params ''id'') \<or> \<not> truthy (own_prop params ''target'')"
    and "own_prop params ''filter'' = JObj fs"
    and "to_string (own_prop params ''target'') \<notin> fst ` set fs"
    and "(getManyReference_query params :: 'e failure + props) = Inr ((''q'', JObj q) # rest)"
  shows "map_of q (to_string (own_prop params ''target'') @ ''_eq'') = None"
proof -
  let ?t = "to_string (own_prop params ''target'')"
  let ?F = "foldl (\<lambda>fs (key, value). AList.update (key @ ''_eq'') value fs) [] fs"
  obtain page perPage field order where
    "(computeFilters (JObj fs) page perPage field order (own_prop params ''target'')
        (own_prop params ''id'') :: 'e failure + props) = Inr ((''q'', JObj q) # rest)"
    using assms(2,4)
    by (auto simp: getManyReference_query_def and_then_def split: sum.splits)
  with assms(1) have "\<exists>x. q = (''s'', x) # ?F"
    by (auto simp: computeFilters_shape [of "JObj fs" fs])
  then obtain x where q: "q = (''s'', x) # ?F" ..
  have "?t @ ''_eq'' \<notin> fst ` set ?F"
    using filters_loop_keys [of "?t @ ''_eq''" "[]" fs] assms(3) by auto
  with q s_not_eq_key [of ?t] show ?thesis
    by (auto simp: map_of_eq_None_iff)
qed

lemma demo_zero_reference_query:
  "(getManyReference_query demo_zero_reference_params :: 'e failure + props) =
     Inr [(''q'', JObj [(''s'', JStr (json_quote ''title ASC''))]),
          (''page'', JNum 1), (''per'', JNum 4)]"
  by (simp add: getManyReference_query_def demo_zero_reference_params_def own_prop_def
      and_then_def computeFilters_def spread_def json_value_def)

lemma spread_object: "distinct (map fst d) \<Longrightarrow> spread [] (JObj d) = d"
  using assign_all_append [of "[]" d] by (simp add: spread_def)

lemma qs_ids_123: "qs_stringify [(''ids'', JStr (json_quote ''123,124,125''))] =
    ''ids=%22123%2C124%2C125%22''"
  by code_simp

lemma ids_query_numbers:
  "own_prop params ''ids'' = JArr (map JNum ns) \<Longrightarrow>
   (ids_query params :: 'e failure + props) =
     Inr [(''ids'', JStr (json_quote (join '','' (map show_int ns))))]"
  by (simp add: ids_query_def and_then_def json_value_def comp_def)

section \<open>The query object of \<^verbatim>\<open>getList\<close>\<close>

lemma getList_query_object:
  assumes "own_prop params ''paginate'' = JObj pg"
    and "own_prop params ''sort'' = JObj st"
    and "own_prop st ''field'' = JStr field"
    and "own_prop st ''order'' = JStr order"
    and "own_prop params ''filter'' = JObj fs"
    and "distinct (map fst fs)"
  shows "calls (getList p resource params) =
           [(apiUrl p @ ''/'' @ resource @ ''?'' @ stringify p
               [(''q'', JObj ((''s'', JStr (json_quote (field @ '' '' @ order))) #
                              map (\<lambda>(k, v). (k @ ''_eq'', v)) fs)),
                (''page'', own_prop pg ''page''),
                (''per'', own_prop pg ''perPage'')], None)]
         \<and> json_parse_string (json_quote (field @ '' '' @ order)) = Some (field @ '' '' @ order)"
proof -
  have "(getList_query params :: 'a failure + props) =
      Inr [(''q'', JObj ((''s'', JStr (json_quote (field @ '' '' @ order))) #
                          map (\<lambda>(k, v). (k @ ''_eq'', v)) fs)),
           (''page'', own_prop pg ''page''), (''per'', own_prop pg ''perPage'')]"
    using assms
    by (simp add: getList_query_def and_then_def filters_loop_exact
        computeFilters_shape [of "JObj fs" fs])
  then show ?thesis
    by (simp add: getList_def attempt_def request_then_def json_parse_string_quote)
qed

section \<open>Facts about the imported serializer on a nested query\<close>

lemma qs_nested_collapses:
  "qs_stringify [(''q'', JObj q), (''page'', JNum 1), (''per'', JNum 4)] =
     ''page=1&per=4&q=%5Bobject%20Object%5D''"
proof -
  have s: "sort_key fst [(''q'', JObj q), (''page'', JNum 1), (''per'', JNum 4)] =
      [(''page'', JNum 1), (''per'', JNum 4), (''q'', JObj q)]"
    by simp
  have e: "strict_uri_encode (JStr ''page'') = ''page''" "strict_uri_encode (JStr ''per'') = ''per''"
    "strict_uri_encode (JStr ''q'') = ''q''"
    "strict_uri_encode (JNum 1) = ''1''" "strict_uri_encode (JNum 4) = ''4''"
    "strict_uri_encode (JObj q) = ''%5Bobject%20Object%5D''"
    by code_simp+
  show ?thesis
    unfolding qs_stringify_def s by (simp add: e)
qed

section \<open>Facts about what raises and what calls\<close>

lemma get_raises: "(get v k :: 'e failure + jsval) = Inl err \<Longrightarrow> err = TypeError"
  by (cases v) auto

lemma object_entries_raises:
  "(object_entries v :: 'e failure + props) = Inl err \<Longrightarrow> err = TypeError"
  by (cases v) auto

lemma iterate_raises:
  "(iterate v :: 'e failure + jsval list) = Inl err \<Longrightarrow> err = TypeError"
  by (cases v) auto

lemma array_join_raises:
  "(array_join v sep :: 'e failure + string) = Inl err \<Longrightarrow> err = TypeError"
  by (cases v) auto

lemma computeFilters_raises:
  "(computeFilters obj page perPage field order tg i :: 'e failure + props) = Inl err
   \<Longrightarrow> err = TypeError"
  by (cases "object_entries obj :: 'e failure + props")
     (auto simp: computeFilters_def Let_def dest: object_entries_raises)

lemma and_then_raises:
  assumes "and_then x k = Inl err"
    and "\<And>e. x = Inl e \<Longrightarrow> e = TypeError"
    and "\<And>v. k v = Inl err \<Longrightarrow> err = TypeError"
  shows "err = TypeError"
  using assms by (cases x) (auto simp: and_then_def)

lemma getList_query_raises:
  "(getList_query params :: 'e failure + props) = Inl err \<Longrightarrow> err = TypeError"
  unfolding getList_query_def
  by (erule and_then_raises, erule get_raises)+ (erule computeFilters_raises)

lemma getManyReference_query_raises:
  "(getManyReference_query params :: 'e failure + props) = Inl err \<Longrightarrow> err = TypeError"
  unfolding getManyReference_query_def
  by (erule and_then_raises, erule get_raises)+ (erule computeFilters_raises)

lemma ids_query_raises:
  "(ids_query params :: 'e failure + props) = Inl err \<Longrightarrow> err = TypeError"
  unfolding ids_query_def
  by (erule and_then_raises, erule array_join_raises) simp

lemma request_then_one_call: "one_call_passing_failure p (request_then p u opts k)"
  by (simp add: one_call_passing_failure_def request_then_def)

lemma attempt_built:
  "x = Inr v \<Longrightarrow>
   one_call_passing_failure p (attempt x (\<lambda>v. request_then p (f v) (g v) (k v)))"
  by (simp add: attempt_def request_then_one_call)

lemma attempt_raised:
  "x = Inl TypeError \<Longrightarrow> raised_before_calling (attempt x k)"
  by (simp add: attempt_def throw_def raised_before_calling_def)

lemma attempt_settles:
  assumes "\<And>err. x = Inl err \<Longrightarrow> err = TypeError"
  shows "case x of
           Inl err \<Rightarrow> raised_before_calling (attempt x (\<lambda>v. request_then p (f v) (g v) (k v)))
         | Inr v \<Rightarrow> one_call_passing_failure p (attempt x (\<lambda>v. request_then p (f v) (g v) (k v)))"
proof (cases x)
  case (Inl err)
  with assms have "x = Inl TypeError" by simp
  from attempt_raised [OF this] Inl show ?thesis by simp
next
  case (Inr v)
  from attempt_built [OF this] Inr show ?thesis by simp
qed

section \<open>The claims\<close>

subsection \<open>Claim C1: the URL of \<^verbatim>\<open>updateMany\<close> and \<^verbatim>\<open>deleteMany\<close>\<close>

text \<open>
  Claim C1 as stated fails: for the ids 123, 124, 125 the URL of \<^verbatim>\<open>updateMany\<close> ends
  in \<^verbatim>\<open>ids=%22123%2C124%2C125%22\<close>, the encoding of the quoted string
  \<^verbatim>\<open>"123,124,125"\<close>, and not in \<^verbatim>\<open>ids=%5B123%2C124%2C125%5D\<close>.
\<close>

theorem updateMany_url_is_quoted_string:
  "map fst (calls (updateMany (demo_provider (Inl ())) ''posts'' demo_ids_params)) =
     [''http://my.api.url/posts/multi?ids=%22123%2C124%2C125%22'']
   \<and> map fst (calls (updateMany (demo_provider (Inl ())) ''posts'' demo_ids_params)) \<noteq>
     [''http://my.api.url/posts/multi?ids=%5B123%2C124%2C125%5D'']"
proof -
  have i: "own_prop demo_ids_params ''ids'' = JArr (map JNum [123, 124, 125])"
    by (simp add: own_prop_def demo_ids_params_def)
  have "map fst (calls (updateMany (demo_provider (Inl ())) ''posts'' demo_ids_params)) =
     [''http://my.api.url/posts/multi?ids=%22123%2C124%2C125%22'']"
    by (simp add: updateMany_def ids_query_numbers [OF i] attempt_def request_then_def
        demo_provider_def show_int_123 show_int_124 show_int_125 qs_ids_123 [simplified])
  then show ?thesis by simp
qed

text \<open>
  Claim C1, as amended. For every resource and every sequence of numeric ids,
  \<^verbatim>\<open>updateMany\<close> and \<^verbatim>\<open>deleteMany\<close> call the URL \<^verbatim>\<open><base>/<resource>/multi?\<close> followed by
  the serialized query \<^verbatim>\<open>{ids: s}\<close>, where \<open>s\<close> is the JSON encoding of the string
  of the ids joined by commas (a quoted string, not a JSON array); with the serializer
  of query-string and the ids 123, 124, 125 the URL is
  \<^verbatim>\<open><base>/<resource>/multi?ids=%22123%2C124%2C125%22\<close>. When the transport resolves,
  the operation resolves with the server's JSON, unchanged, as its data.
\<close>

theorem updateMany_deleteMany_url:
  assumes "op = updateMany \<or> op = deleteMany"
    and "own_prop params ''ids'' = JArr (map JNum ns)"
  shows "map fst (calls (op p resource params)) =
           [apiUrl p @ ''/'' @ resource @ ''/multi?'' @
              stringify p [(''ids'', JStr (json_quote (join '','' (map show_int ns))))]]
         \<and> (stringify p = qs_stringify \<and> ns = [123, 124, 125] \<longrightarrow>
              map fst (calls (op p resource params)) =
                [apiUrl p @ ''/'' @ resource @ ''/multi?ids=%22123%2C124%2C125%22''])
         \<and> (\<forall>u opts r. calls (op p resource params) = [(u, opts)] \<and> httpClient p u opts = Inr r
              \<longrightarrow> result (op p resource params) = Inr (JObj [(''data'', json r)]))"
proof -
  have q: "(ids_query params :: 'a failure + props) =
      Inr [(''ids'', JStr (json_quote (join '','' (map show_int ns))))]"
    using assms(2) by (rule ids_query_numbers)
  from assms(1) show ?thesis
  proof
    assume "op = updateMany"
    then show ?thesis
      by (simp add: updateMany_def q attempt_def request_then_def data_result_def
          show_int_123 show_int_124 show_int_125 qs_ids_123 [simplified])
  next
    assume "op = deleteMany"
    then show ?thesis
      by (simp add: deleteMany_def q attempt_def request_then_def data_result_def
          show_int_123 show_int_124 show_int_125 qs_ids_123 [simplified])
  qed
qed

theorem updateMany_deleteMany_url_witness:
  "map fst (calls (deleteMany (demo_provider (Inr (demo_response [] (JArr [JNum 123, JNum 124, JNum 125]))))
       ''posts'' demo_ids_params)) =
     [''http://my.api.url/posts/multi?ids=%22123%2C124%2C125%22'']
   \<and> result (deleteMany (demo_provider (Inr (demo_response [] (JArr [JNum 123, JNum 124, JNum 125]))))
       ''posts'' demo_ids_params) =
     Inr (JObj [(''data'', JArr [JNum 123, JNum 124, JNum 125])])"
proof -
  let ?r = "demo_response [] (JArr [JNum 123, JNum 124, JNum 125])"
  let ?p = "demo_provider (Inr ?r)"
  have h: "(deleteMany :: unit provider \<Rightarrow> string \<Rightarrow> props \<Rightarrow> unit outcome) = updateMany \<or>
      (deleteMany :: unit provider \<Rightarrow> string \<Rightarrow> props \<Rightarrow> unit outcome) = deleteMany"
    "own_prop demo_ids_params ''ids'' = JArr (map JNum [123, 124, 125])"
    by (simp_all add: own_prop_def demo_ids_params_def)
  have s: "stringify ?p = qs_stringify" and j: "json ?r = JArr [JNum 123, JNum 124, JNum 125]"
    and a: "apiUrl ?p = ''http://my.api.url''"
    by (simp_all add: demo_provider_def demo_response_def)
  have c: "calls (deleteMany ?p ''posts'' demo_ids_params) =
      [(''http://my.api.url/posts/multi?ids=%22123%2C124%2C125%22'',
        Some \<lparr>http_method = ''DELETE'', body = None\<rparr>)]"
    by (simp add: deleteMany_def ids_query_numbers [OF h(2)] attempt_def request_then_def
        demo_provider_def show_int_123 show_int_124 show_int_125 qs_ids_123 [simplified])
  have t: "httpClient ?p ''http://my.api.url/posts/multi?ids=%22123%2C124%2C125%22''
      (Some \<lparr>http_method = ''DELETE'', body = None\<rparr>) = Inr ?r"
    by (simp add: demo_provider_def)
  from updateMany_deleteMany_url [OF h, of ?p "''posts''"] s j a c t
  show ?thesis by simp
qed

subsection \<open>Claim C2: a count header that is absent or not numeric\<close>

text \<open>
  Claim C2 as stated fails: with the count header \<^verbatim>\<open>posts 0-4/abc\<close> the operation
  \<^verbatim>\<open>getList\<close> resolves, and its total is \<^verbatim>\<open>NaN\<close>.
\<close>

theorem getList_resolves_with_NaN_total:
  "result (getList (demo_provider (Inr (demo_response ''posts 0-4/abc'' (JArr []))))
             ''posts'' demo_list_params) =
     Inr (JObj [(''data'', JArr []), (''total'', JNaN)])"
proof -
  have "array_pop (split_on CHR ''/'' (''posts 0-4'' @ CHR ''/'' # ''abc'')) = JStr ''abc''"
    by (rule pop_split_on) simp
  moreover have "parseInt (JStr ''abc'') = JNaN"
    by (rule parseInt_no_digit) (simp add: is_digit_def less_eq_char_def)
  ultimately have "(list_result ''Content-Range'' (demo_response ''posts 0-4/abc'' (JArr []))
      :: unit failure + jsval) = Inr (JObj [(''data'', JArr []), (''total'', JNaN)])"
    by (simp add: list_result_def demo_response_def demo_headers_def)
  then show ?thesis
    using getList_settles [OF demo_getList_calls]
    by (simp add: demo_provider_def)
qed

text \<open>
  Claim C2, as amended. Let \<^verbatim>\<open>getList\<close> or \<^verbatim>\<open>getManyReference\<close> have issued its request and
  the transport have resolved. If the configured count header is absent, the operation
  fails, with the \<^verbatim>\<open>TypeError\<close> of calling \<^verbatim>\<open>split\<close> on \<^verbatim>\<open>null\<close>; the provider has no
  error of its own for a malformed response. If the header is present, the operation
  resolves with the response's JSON and a total, and the total is \<^verbatim>\<open>NaN\<close> whenever the
  segment after the last \<^verbatim>\<open>/\<close> of the value (the whole value when it has no \<^verbatim>\<open>/\<close>) holds
  no decimal digit.
\<close>

theorem count_header_absent_or_malformed:
  assumes "op = getList \<or> op = getManyReference"
    and "calls (op p resource params) = [(u, opts)]"
    and "httpClient p u opts = Inr r"
  shows "(headers r (countHeader p) = None \<longrightarrow>
            result (op p resource params) = Inl TypeError) \<and>
         (\<forall>v. headers r (countHeader p) = Some v \<longrightarrow>
            (\<exists>t. result (op p resource params) =
                    Inr (JObj [(''data'', json r), (''total'', t)]) \<and>
                 (\<forall>pre seg. v = pre @ seg \<and> (pre = [] \<or> last pre = CHR ''/'') \<and>
                     CHR ''/'' \<notin> set seg \<and> (\<forall>c\<in>set seg. \<not> is_digit c) \<longrightarrow> t = JNaN)))"
proof -
  have "result (op p resource params) = list_result (countHeader p) r"
    using assms getList_settles [of p resource params u opts]
      getManyReference_settles [of p resource params u opts]
    by auto
  then show ?thesis
    using list_result_cases [of r "countHeader p"] by simp
qed

theorem count_header_absent_or_malformed_witness:
  "result (getManyReference
             (demo_provider (Inr \<lparr>headers = (\<lambda>h. None), json = JArr []\<rparr>))
             ''comments'' demo_reference_params) = Inl TypeError \<and>
   result (getManyReference
             (demo_provider (Inr (demo_response ''comments 0-1/many'' (JArr []))))
             ''comments'' demo_reference_params) =
     Inr (JObj [(''data'', JArr []), (''total'', JNaN)])"
proof -
  let ?r1 = "\<lparr>headers = (\<lambda>h. None), json = JArr []\<rparr>"
  let ?r2 = "demo_response ''comments 0-1/many'' (JArr [])"
  have op: "getManyReference = getList \<or>
      (getManyReference :: unit provider \<Rightarrow> string \<Rightarrow> props \<Rightarrow> unit outcome) = getManyReference"
    by simp
  have c1: "httpClient (demo_provider (Inr ?r1)) u None = Inr ?r1" for u
    by (simp add: demo_provider_def)
  have c2: "httpClient (demo_provider (Inr ?r2)) u None = Inr ?r2" for u
    by (simp add: demo_provider_def)
  have seg: "''comments 0-1/many'' = ''comments 0-1/'' @ ''many'' \<and>
      (''comments 0-1/'' = [] \<or> last ''comments 0-1/'' = CHR ''/'') \<and>
      CHR ''/'' \<notin> set ''many'' \<and> (\<forall>c\<in>set ''many''. \<not> is_digit c)"
    by (simp add: is_digit_def less_eq_char_def)
  have first: "result (getManyReference (demo_provider (Inr ?r1)) ''comments''
      demo_reference_params) = Inl TypeError"
    using count_header_absent_or_malformed [OF op demo_getManyReference_calls c1]
    by simp
  have hd: "headers ?r2 (countHeader (demo_provider (Inr ?r2))) = Some ''comments 0-1/many''"
    by (simp add: demo_provider_def demo_response_def demo_headers_def)
  have "json ?r2 = JArr []" by (simp add: demo_response_def)
  with count_header_absent_or_malformed [OF op demo_getManyReference_calls c2] hd seg
  have second: "result (getManyReference (demo_provider (Inr ?r2)) ''comments''
      demo_reference_params) = Inr (JObj [(''data'', JArr []), (''total'', JNaN)])"
    by (metis (no_types, lifting))
  from first second show ?thesis by simp
qed

subsection \<open>Claim C3: the query of \<^verbatim>\<open>getList\<close>\<close>

text \<open>
  Claim C3 and the code. The query object \<^verbatim>\<open>getList\<close> builds is the one the claim
  describes (\<open>getList_query_object\<close> above): \<^verbatim>\<open>q.s\<close> JSON-decodes to
  \<^verbatim>\<open><field> <order>\<close> and the other properties of \<^verbatim>\<open>q\<close> are one \<^verbatim>\<open><k>_eq\<close> for each
  property of the filter. The URL is not: the serializer the provider imports does not
  descend into the nested object \<^verbatim>\<open>q\<close> and prints it as \<^verbatim>\<open>[object Object]\<close>. For page 1,
  4 per page, sort \<^verbatim>\<open>email ASC\<close> and filter \<^verbatim>\<open>{author_id: 12}\<close> the URL is
  \<^verbatim>\<open>http://my.api.url/posts?page=1&per=4&q=%5Bobject%20Object%5D\<close>, with no parameter
  \<^verbatim>\<open>q[s]\<close> and no parameter \<^verbatim>\<open>q[author_id_eq]\<close>, where the comment above \<^verbatim>\<open>getList\<close> in
  the source promises \<^verbatim>\<open>?q[s]=["email ASC"]&page=1&per=4\<close>.
\<close>

theorem getList_url_collapses_query:
  "calls (getList (demo_provider (Inl ())) ''posts'' demo_list_params) =
     [(''http://my.api.url/posts?page=1&per=4&q=%5Bobject%20Object%5D'', None)]"
  using demo_getList_calls [of "Inl ()"]
  by (simp add: qs_nested_collapses)

subsection \<open>Claim C4: the total read from the count header\<close>

text \<open>
  Claim C4. When \<^verbatim>\<open>getList\<close> has issued its request and the transport resolves with a
  response whose count header has the form \<^verbatim>\<open><resource> <start>-<end>/<total>\<close>, the
  total being the decimal notation of \<open>t\<close>, the operation resolves with the response's
  JSON as data and with the number \<open>t\<close> as total: the value is split on \<^verbatim>\<open>/\<close>, the
  trailing segment is taken and parsed. For the header value \<^verbatim>\<open>posts 0-4/27\<close> the total
  is 27.
\<close>

theorem getList_total_from_count_header:
  assumes "calls (getList p resource params) = [(u, opts)]"
    and "httpClient p u opts = Inr r"
    and "headers r (countHeader p) =
           Some (name @ '' '' @ show_nat a @ ''-'' @ show_nat b @ ''/'' @ show_nat t)"
    and "t < 2 ^ 53"
  shows "result (getList p resource params) =
           Inr (JObj [(''data'', json r), (''total'', JNum (int t))])"
proof -
  have "headers r (countHeader p) =
          Some ((name @ '' '' @ show_nat a @ ''-'' @ show_nat b) @ ''/'' @ show_nat t)"
    using assms(3) by simp
  then have "list_result (countHeader p) r =
               Inr (JObj [(''data'', json r), (''total'', JNum (int t))])"
    by (rule list_result_counted)
  with getList_settles [OF assms(1)] assms(2) show ?thesis by simp
qed

theorem getList_total_from_count_header_witness:
  "result (getList (demo_provider (Inr (demo_response ''posts 0-4/27'' (JArr []))))
             ''posts'' demo_list_params) =
     Inr (JObj [(''data'', JArr []), (''total'', JNum 27)])"
proof -
  let ?p = "demo_provider (Inr (demo_response ''posts 0-4/27'' (JArr [])))"
  have h2: "httpClient ?p u None = Inr (demo_response ''posts 0-4/27'' (JArr []))" for u
    by (simp add: demo_provider_def)
  have h3: "headers (demo_response ''posts 0-4/27'' (JArr [])) (countHeader ?p) =
              Some (''posts'' @ '' '' @ show_nat 0 @ ''-'' @ show_nat 4 @ ''/'' @ show_nat 27)"
    by (simp add: demo_provider_def demo_response_def demo_headers_def
        show_nat_0 show_nat_4 show_nat_27)
  have h4: "(27::nat) < 2 ^ 53" by simp
  show ?thesis
    using getList_total_from_count_header [OF demo_getList_calls h2 h3 h4]
    by (simp add: demo_response_def)
qed

subsection \<open>Claim C5: the URL of \<^verbatim>\<open>getMany\<close>\<close>

text \<open>
  Claim C5. For every resource and every sequence of ids, \<^verbatim>\<open>getMany\<close> calls the
  transport once, with the URL whose query string is the segments \<^verbatim>\<open>q["id_in"][]=<id>\<close>,
  one for each id in the order of the sequence, joined by \<^verbatim>\<open>&\<close>. For the ids
  123, 124, 125 the query string is
  \<^verbatim>\<open>q["id_in"][]=123&q["id_in"][]=124&q["id_in"][]=125\<close>.
\<close>

theorem getMany_url:
  assumes "own_prop params ''ids'' = JArr ids"
  shows \<open>calls (getMany p resource params) =
           [(apiUrl p @ ''/'' @ resource @ ''?'' @
               join ''&'' (map (\<lambda>i. ''q["id_in"][]='' @ to_string i) ids), None)]
         \<and> (ids = [JNum 123, JNum 124, JNum 125] \<longrightarrow>
             calls (getMany p resource params) =
               [(apiUrl p @ ''/'' @ resource @
                 ''?q["id_in"][]=123&q["id_in"][]=124&q["id_in"][]=125'', None)])\<close>
  using assms
  by (simp add: getMany_def attempt_def request_then_def getMany_loop_map
      show_int_123 show_int_124 show_int_125)

theorem getMany_url_witness:
  \<open>calls (getMany (demo_provider (Inl ())) ''posts'' [(''ids'', JArr [JNum 123, JNum 124, JNum 125])]) =
     [(''http://my.api.url/posts?q["id_in"][]=123&q["id_in"][]=124&q["id_in"][]=125'', None)]\<close>
proof -
  have h: "own_prop [(''ids'', JArr [JNum 123, JNum 124, JNum 125])] ''ids'' =
             JArr [JNum 123, JNum 124, JNum 125]"
    by (simp add: own_prop_def)
  show ?thesis
    using getMany_url [OF h, of "demo_provider (Inl ())" "''posts''"]
    by (simp add: demo_provider_def show_int_123 show_int_124 show_int_125)
qed

subsection \<open>Claim C6: the query of \<^verbatim>\<open>getManyReference\<close>\<close>

text \<open>
  Claim C6 and the code, at two inputs. With the target \<^verbatim>\<open>post_id\<close>, the id 1 and the
  sort \<^verbatim>\<open>email ASC\<close>, the example of the claim, the URL is
  \<^verbatim>\<open>http://my.api.url/comments?page=1&per=4&q=%5Bobject%20Object%5D\<close>: the imported
  serializer prints the nested object \<^verbatim>\<open>q\<close> as \<^verbatim>\<open>[object Object]\<close>, and neither \<^verbatim>\<open>q[s]\<close> nor
  \<^verbatim>\<open>q[post_id_eq]\<close> is a parameter of it. With the target \<^verbatim>\<open>author_id\<close> and the id 0,
  the reference constraint is missing from the query object already: the guard
  \<^verbatim>\<open>if (target && id)\<close> tests the id for truthiness, and 0 is falsy.
\<close>

theorem getManyReference_loses_reference:
  "calls (getManyReference (demo_provider (Inl ())) ''comments'' demo_reference_params) =
     [(''http://my.api.url/comments?page=1&per=4&q=%5Bobject%20Object%5D'', None)]
   \<and> (getManyReference_query demo_zero_reference_params :: unit failure + props) =
     Inr [(''q'', JObj [(''s'', JStr (json_quote ''title ASC''))]),
          (''page'', JNum 1), (''per'', JNum 4)]"
  using demo_getManyReference_calls [of "Inl ()"] demo_zero_reference_query [where 'e = unit]
  by (simp add: qs_nested_collapses)

subsection \<open>Claim C7: the result of \<^verbatim>\<open>create\<close>\<close>

text \<open>
  Claim C7. For every \<^verbatim>\<open>create\<close> call with a record \<open>d\<close> as data, when the transport
  resolves with a JSON object that has an \<^verbatim>\<open>id\<close>, the operation resolves with
  \<^verbatim>\<open>{data: d'}\<close> where \<open>d'\<close> is \<open>d\<close> with the one property \<^verbatim>\<open>id\<close> set to the
  server's id: every other property keeps its value, and an \<^verbatim>\<open>id\<close> that \<open>d\<close> did not
  have is added at the end. Data \<^verbatim>\<open>{title: "hello"}\<close> and the response \<^verbatim>\<open>{id: 123}\<close>
  give \<^verbatim>\<open>{title: "hello", id: 123}\<close>.
\<close>

theorem create_overlays_id:
  assumes "own_prop params ''data'' = JObj d"
    and "distinct (map fst d)"
    and "calls (create p resource params) = [(u, opts)]"
    and "httpClient p u opts = Inr r"
    and "json r = JObj js"
    and "map_of js ''id'' = Some i"
  shows "result (create p resource params) =
           Inr (JObj [(''data'', JObj (AList.update ''id'' i d))])
         \<and> map_of (AList.update ''id'' i d) = (map_of d)(''id'' \<mapsto> i)
         \<and> (''id'' \<notin> fst ` set d \<longrightarrow> AList.update ''id'' i d = d @ [(''id'', i)])"
proof -
  from assms(3) have "u = apiUrl p @ ''/'' @ resource" and
    "opts = Some \<lparr>http_method = ''POST'',
                  body = json_stringify (JObj [(resource, own_prop params ''data'')])\<rparr>"
    by (simp_all add: create_def request_then_def)
  with assms(1,2,4,5,6) have "result (create p resource params) =
      Inr (JObj [(''data'', JObj (AList.update ''id'' i d))])"
    by (simp add: create_def request_then_def spread_object own_prop_def)
  then show ?thesis
    by (simp add: update_conv' update_fresh)
qed

theorem create_overlays_id_witness:
  "result (create (demo_provider (Inr \<lparr>headers = (\<lambda>h. None), json = JObj [(''id'', JNum 123)]\<rparr>))
             ''posts'' [(''data'', JObj [(''title'', JStr ''hello'')])]) =
     Inr (JObj [(''data'', JObj [(''title'', JStr ''hello''), (''id'', JNum 123)])])"
proof -
  let ?r = "\<lparr>headers = (\<lambda>h. None), json = JObj [(''id'', JNum 123)]\<rparr>"
  let ?params = "[(''data'', JObj [(''title'', JStr ''hello'')])]"
  let ?u = "''http://my.api.url/posts''"
  let ?opts = "Some \<lparr>http_method = ''POST'',
      body = json_stringify (JObj [(''posts'', JObj [(''title'', JStr ''hello'')])])\<rparr>"
  have h: "own_prop ?params ''data'' = JObj [(''title'', JStr ''hello'')]"
    "distinct (map fst [(''title'', JStr ''hello'')])"
    "calls (create (demo_provider (Inr ?r)) ''posts'' ?params) = [(?u, ?opts)]"
    "httpClient (demo_provider (Inr ?r)) ?u ?opts = Inr ?r"
    "json ?r = JObj [(''id'', JNum 123)]"
    "map_of [(''id'', JNum 123)] ''id'' = Some (JNum 123)"
    by (simp_all add: own_prop_def create_def request_then_def demo_provider_def)
  show ?thesis
    using create_overlays_id [OF h] by simp
qed

subsection \<open>Claim C8: a failure of the transport\<close>

text \<open>
  Claim C8. On every input, \<^verbatim>\<open>getOne\<close>, \<^verbatim>\<open>create\<close>, \<^verbatim>\<open>update\<close> and \<^verbatim>\<open>delete\<close> issue exactly
  one call of the transport, and if the transport rejects that call with an error the
  operation fails with exactly that error. The other five operations first build a
  query from their parameters: whenever that succeeds they too issue exactly one call
  and pass its failure on unchanged, and when it raises they fail with the
  \<^verbatim>\<open>TypeError\<close> and the transport is never called. No operation calls the transport a
  second time or recovers from its failure.
\<close>

theorem transport_failure_propagates:
  fixes p :: "'e provider"
  shows "one_call_passing_failure p (getOne p resource params) \<and>
         one_call_passing_failure p (create p resource params) \<and>
         one_call_passing_failure p (update p resource params) \<and>
         one_call_passing_failure p (delete p resource params) \<and>
         (case (getList_query params :: 'e failure + props) of
            Inl err \<Rightarrow> raised_before_calling (getList p resource params)
          | Inr query \<Rightarrow> one_call_passing_failure p (getList p resource params)) \<and>
         (case (getManyReference_query params :: 'e failure + props) of
            Inl err \<Rightarrow> raised_before_calling (getManyReference p resource params)
          | Inr query \<Rightarrow> one_call_passing_failure p (getManyReference p resource params)) \<and>
         (case (iterate (own_prop params ''ids'') :: 'e failure + jsval list) of
            Inl err \<Rightarrow> raised_before_calling (getMany p resource params)
          | Inr ids \<Rightarrow> one_call_passing_failure p (getMany p resource params)) \<and>
         (case (ids_query params :: 'e failure + props) of
            Inl err \<Rightarrow> raised_before_calling (updateMany p resource params)
          | Inr query \<Rightarrow> one_call_passing_failure p (updateMany p resource params)) \<and>
         (case (ids_query params :: 'e failure + props) of
            Inl err \<Rightarrow> raised_before_calling (deleteMany p resource params)
          | Inr query \<Rightarrow> one_call_passing_failure p (deleteMany p resource params))"
proof (intro conjI)
  show "one_call_passing_failure p (getOne p resource params)"
    by (simp add: getOne_def request_then_one_call)
  show "one_call_passing_failure p (create p resource params)"
    by (simp add: create_def request_then_one_call)
  show "one_call_passing_failure p (update p resource params)"
    by (simp add: update_def request_then_one_call)
  show "one_call_passing_failure p (delete p resource params)"
    by (simp add: delete_def request_then_one_call)
  show "case (getList_query params :: 'e failure + props) of
            Inl err \<Rightarrow> raised_before_calling (getList p resource params)
          | Inr query \<Rightarrow> one_call_passing_failure p (getList p resource params)"
    unfolding getList_def by (rule attempt_settles) (rule getList_query_raises)
  show "case (getManyReference_query params :: 'e failure + props) of
            Inl err \<Rightarrow> raised_before_calling (getManyReference p resource params)
          | Inr query \<Rightarrow> one_call_passing_failure p (getManyReference p resource params)"
    unfolding getManyReference_def
    by (rule attempt_settles) (rule getManyReference_query_raises)
  show "case (iterate (own_prop params ''ids'') :: 'e failure + jsval list) of
            Inl err \<Rightarrow> raised_before_calling (getMany p resource params)
          | Inr ids \<Rightarrow> one_call_passing_failure p (getMany p resource params)"
    unfolding getMany_def by (rule attempt_settles) (rule iterate_raises)
  show "case (ids_query params :: 'e failure + props) of
            Inl err \<Rightarrow> raised_before_calling (updateMany p resource params)
          | Inr query \<Rightarrow> one_call_passing_failure p (updateMany p resource params)"
    unfolding updateMany_def by (rule attempt_settles) (rule ids_query_raises)
  show "case (ids_query params :: 'e failure + props) of
            Inl err \<Rightarrow> raised_before_calling (deleteMany p resource params)
          | Inr query \<Rightarrow> one_call_passing_failure p (deleteMany p resource params)"
    unfolding deleteMany_def by (rule attempt_settles) (rule ids_query_raises)
qed

theorem transport_failure_propagates_witness:
  "calls (delete (demo_provider (Inl ())) ''posts'' [(''id'', JNum 123)]) =
     [(''http://my.api.url/posts/123'', Some \<lparr>http_method = ''DELETE'', body = None\<rparr>)] \<and>
   result (delete (demo_provider (Inl ())) ''posts'' [(''id'', JNum 123)]) = Inl (Rejected ()) \<and>
   calls (getList (demo_provider (Inl ())) ''posts'' demo_list_params) =
     [(''http://my.api.url/posts?page=1&per=4&q=%5Bobject%20Object%5D'', None)] \<and>
   result (getList (demo_provider (Inl ())) ''posts'' demo_list_params) = Inl (Rejected ()) \<and>
   getList (demo_provider (Inl ())) ''posts'' demo_reference_params =
     \<lparr>calls = [], result = Inl TypeError\<rparr>"
proof -
  let ?p = "demo_provider (Inl ())"
  note all = transport_failure_propagates [of ?p "''posts''"]
  have f: "httpClient ?p u opts = Inl ()" for u opts
    by (simp add: demo_provider_def)
  have c: "calls (delete ?p ''posts'' [(''id'', JNum 123)]) =
      [(''http://my.api.url/posts/123'', Some \<lparr>http_method = ''DELETE'', body = None\<rparr>)]"
    by (simp add: delete_def request_then_def demo_provider_def own_prop_def show_int_123)
  from all [of "[(''id'', JNum 123)]"]
  have "one_call_passing_failure ?p (delete ?p ''posts'' [(''id'', JNum 123)])"
    by simp
  with f have d: "result (delete ?p ''posts'' [(''id'', JNum 123)]) = Inl (Rejected ())"
    by (auto simp: one_call_passing_failure_def)
  have q: "\<exists>query. (getList_query demo_list_params :: unit failure + props) = Inr query"
    by (simp add: getList_query_def demo_list_params_def own_prop_def and_then_def
        computeFilters_def)
  have cl: "calls (getList ?p ''posts'' demo_list_params) =
      [(''http://my.api.url/posts?page=1&per=4&q=%5Bobject%20Object%5D'', None)]"
    using demo_getList_calls [of "Inl ()"] by (simp add: qs_nested_collapses)
  from all [of demo_list_params] q
  have "one_call_passing_failure ?p (getList ?p ''posts'' demo_list_params)"
    by auto
  with f have l: "result (getList ?p ''posts'' demo_list_params) = Inl (Rejected ())"
    by (auto simp: one_call_passing_failure_def)
  have r: "(getList_query demo_reference_params :: unit failure + props) = Inl TypeError"
    by (simp add: getList_query_def demo_reference_params_def own_prop_def and_then_def)
  from all [of demo_reference_params] r
  have "raised_before_calling (getList ?p ''posts'' demo_reference_params)"
    by simp
  then have n: "getList ?p ''posts'' demo_reference_params = \<lparr>calls = [], result = Inl TypeError\<rparr>"
    by (simp add: raised_before_calling_def)
  from c d cl l n show ?thesis by simp
qed

subsection \<open>Claim C9: \<^verbatim>\<open>paginate\<close> and \<^verbatim>\<open>pagination\<close>\<close>

text \<open>
  Claim C9. \<^verbatim>\<open>getList\<close> destructures \<^verbatim>\<open>params.paginate\<close>, \<^verbatim>\<open>getManyReference\<close> destructures
  \<^verbatim>\<open>params.pagination\<close>. So for every params object that has its page and perPage
  under \<^verbatim>\<open>pagination\<close> only (with a sort and a filter object, the shape
  \<^verbatim>\<open>getManyReference\<close> turns into one request carrying that page and perPage),
  \<^verbatim>\<open>getList\<close> fails with the \<^verbatim>\<open>TypeError\<close> of destructuring \<^verbatim>\<open>undefined\<close> and calls the
  transport not at all.
\<close>

theorem getList_without_paginate:
  assumes "own_prop params ''paginate'' = JUndefined"
    and "own_prop params ''pagination'' = JObj pg"
    and "own_prop params ''sort'' = JObj st"
    and "own_prop params ''filter'' = JObj fs"
  shows "getList p resource params = \<lparr>calls = [], result = Inl TypeError\<rparr>
         \<and> (\<exists>q. calls (getManyReference p resource params) =
                [(apiUrl p @ ''/'' @ resource @ ''?'' @ stringify p
                    [(''q'', JObj q), (''page'', own_prop pg ''page''),
                     (''per'', own_prop pg ''perPage'')], None)])"
proof
  have "(getList_query params :: 'a failure + props) = Inl TypeError"
    using assms(1) by (simp add: getList_query_def and_then_def)
  then show "getList p resource params = \<lparr>calls = [], result = Inl TypeError\<rparr>"
    by (simp add: getList_def attempt_def throw_def)
next
  have "\<exists>q. (getManyReference_query params :: 'a failure + props) =
      Inr [(''q'', JObj q), (''page'', own_prop pg ''page''), (''per'', own_prop pg ''perPage'')]"
    using assms(2-4)
    by (simp add: getManyReference_query_def and_then_def
        computeFilters_shape [of "JObj fs" fs])
  then show "\<exists>q. calls (getManyReference p resource params) =
                [(apiUrl p @ ''/'' @ resource @ ''?'' @ stringify p
                    [(''q'', JObj q), (''page'', own_prop pg ''page''),
                     (''per'', own_prop pg ''perPage'')], None)]"
    by (auto simp: getManyReference_def attempt_def request_then_def)
qed

theorem getList_without_paginate_witness:
  "getList (demo_provider (Inr (demo_response ''comments 0-1/2'' (JArr []))))
     ''comments'' demo_reference_params = \<lparr>calls = [], result = Inl TypeError\<rparr>
   \<and> (\<exists>q. calls (getManyReference (demo_provider (Inr (demo_response ''comments 0-1/2'' (JArr []))))
                ''comments'' demo_reference_params) =
          [(''http://my.api.url/comments?'' @ qs_stringify
              [(''q'', JObj q), (''page'', JNum 1), (''per'', JNum 4)], None)])"
proof -
  have h: "own_prop demo_reference_params ''paginate'' = JUndefined"
    "own_prop demo_reference_params ''pagination'' = JObj [(''page'', JNum 1), (''perPage'', JNum 4)]"
    "own_prop demo_reference_params ''sort'' = JObj [(''field'', JStr ''email''), (''order'', JStr ''ASC'')]"
    "own_prop demo_reference_params ''filter'' = JObj []"
    by (simp_all add: own_prop_def demo_reference_params_def)
  show ?thesis
    using getList_without_paginate [OF h,
        of "demo_provider (Inr (demo_response ''comments 0-1/2'' (JArr [])))" "''comments''"]
    by (simp add: demo_provider_def own_prop_def)
qed

subsection \<open>Claim C10: a falsy reference id or target\<close>

text \<open>
  Claim C10. When the reference id or the target of a \<^verbatim>\<open>getManyReference\<close> call is
  falsy, the guard \<^verbatim>\<open>if (target && id)\<close> skips the reference constraint: the operation
  does exactly what \<^verbatim>\<open>getList\<close> does on the same parameters (the pagination read from
  where \<^verbatim>\<open>getList\<close> looks for it), the same call and the same result; and unless the
  filter itself has a property named as the target, the query object has no
  \<^verbatim>\<open><target>_eq\<close> at all.
\<close>

theorem getManyReference_falsy_reference:
  assumes "\<not> truthy (own_prop params ''id'') \<or> \<not> truthy (own_prop params ''target'')"
  shows "getManyReference (p :: 'e provider) resource params =
           getList p resource (AList.update ''paginate'' (own_prop params ''pagination'') params)
         \<and> (\<forall>fs q rest. own_prop params ''filter'' = JObj fs \<and>
               to_string (own_prop params ''target'') \<notin> fst ` set fs \<and>
               (getManyReference_query params :: 'e failure + props) = Inr ((''q'', JObj q) # rest)
               \<longrightarrow> map_of q (to_string (own_prop params ''target'') @ ''_eq'') = None)"
proof
  show "getManyReference p resource params =
      getList p resource (AList.update ''paginate'' (own_prop params ''pagination'') params)"
    by (simp add: getManyReference_def getList_def getManyReference_query_falsy [OF assms])
next
  show "\<forall>fs q rest. own_prop params ''filter'' = JObj fs \<and>
               to_string (own_prop params ''target'') \<notin> fst ` set fs \<and>
               (getManyReference_query params :: 'e failure + props) = Inr ((''q'', JObj q) # rest)
               \<longrightarrow> map_of q (to_string (own_prop params ''target'') @ ''_eq'') = None"
    using falsy_query_has_no_reference [OF assms] by blast
qed

theorem getManyReference_falsy_reference_witness:
  "getManyReference (demo_provider (Inl ())) ''posts'' demo_zero_reference_params =
     getList (demo_provider (Inl ())) ''posts''
       (AList.update ''paginate'' (JObj [(''page'', JNum 1), (''perPage'', JNum 4)])
          demo_zero_reference_params)
   \<and> map_of [(''s'', JStr (json_quote ''title ASC''))] ''author_id_eq'' = None"
proof -
  have h: "\<not> truthy (own_prop demo_zero_reference_params ''id'') \<or>
           \<not> truthy (own_prop demo_zero_reference_params ''target'')"
    by (simp add: own_prop_def demo_zero_reference_params_def)
  have f: "own_prop demo_zero_reference_params ''filter'' = JObj []"
    "to_string (own_prop demo_zero_reference_params ''target'') = ''author_id''"
    "own_prop demo_zero_reference_params ''pagination'' =
       JObj [(''page'', JNum 1), (''perPage'', JNum 4)]"
    by (simp_all add: own_prop_def demo_zero_reference_params_def)
  from getManyReference_falsy_reference [OF h, of "demo_provider (Inl ())" "''posts''"]
    demo_zero_reference_query [where 'e = unit] f
  show ?thesis by simp
qed

end
